theory Spec2Isabelle
  imports Complex_Main
begin

section \<open>Numerical utilities of discoeb/util.py\<close>

text \<open>
  The module holds four functions: a complex log-gamma evaluator, a fixed-count bisection
  root finder, a soft clipping function and a Savitzky-Golay filter. Floating point
  numbers are modelled by \<^typ>\<open>real\<close> and \<^typ>\<open>complex\<close>: the arithmetic is exact, and
  rounding, overflow, infinities and NaN are outside that model. The bisection routine is
  modelled a second time over floats with infinities, NaN and rounding, for the properties
  of its bracket that depend on the range of the floats.
\<close>

subsection \<open>Library primitives\<close>

text \<open>
  \<^verbatim>\<open>jax.lax.cond(pred, true_fun, false_fun, operand)\<close> applies one of the two functions to the
  operand, chosen by the predicate.
\<close>

definition lax_cond :: "bool \<Rightarrow> ('a \<Rightarrow> 'b) \<Rightarrow> ('a \<Rightarrow> 'b) \<Rightarrow> 'a \<Rightarrow> 'b" where
  "lax_cond pred true_fun false_fun operand =
     (if pred then true_fun operand else false_fun operand)"

text \<open>Python's \<^verbatim>\<open>range(n)\<close>: the integers from 0 up to n - 1, empty when n is not positive.\<close>

definition range_py :: "int \<Rightarrow> int list" where
  "range_py n = map int [0..<nat n]"

subsection \<open>root_find_bisect\<close>

text \<open>
  The loop variables \<^verbatim>\<open>xleft\<close> and \<^verbatim>\<open>xright\<close>, together with the list of points at which
  the caller's \<^verbatim>\<open>func\<close> has been called so far, in call order. The call log is the only
  effect of the routine that a caller can observe besides its result.
\<close>

record bisect_state =
  st_left :: real
  st_right :: real
  st_calls :: "real list"

text \<open>
  One pass through the body of \<^verbatim>\<open>for i in range(numit)\<close>. The product
  \<^verbatim>\<open>func(xmid, param) * func(xleft, param)\<close> calls \<^verbatim>\<open>func\<close> at the midpoint first and at
  the left end second.
\<close>

definition bisect_body :: "(real \<Rightarrow> 'p \<Rightarrow> real) \<Rightarrow> 'p \<Rightarrow> int \<Rightarrow> bisect_state \<Rightarrow> bisect_state" where
  "bisect_body func param i s =
     (let xmid = 0.5 * (st_left s + st_right s);
          fmid = func xmid param;
          fleft = func (st_left s) param;
          (xl, xr) = lax_cond (fmid * fleft > 0)
                       (\<lambda>x. (xmid, st_right s)) (\<lambda>x. (st_left s, xmid)) ()
      in \<lparr>st_left = xl, st_right = xr, st_calls = st_calls s @ [xmid, st_left s]\<rparr>)"

definition bisect_loop :: "(real \<Rightarrow> 'p \<Rightarrow> real) \<Rightarrow> 'p \<Rightarrow> int \<Rightarrow> bisect_state \<Rightarrow> bisect_state" where
  "bisect_loop func param numit s = fold (bisect_body func param) (range_py numit) s"

definition bisect_init :: "real \<Rightarrow> real \<Rightarrow> bisect_state" where
  "bisect_init xleft xright = \<lparr>st_left = xleft, st_right = xright, st_calls = []\<rparr>"

definition root_find_bisect :: "(real \<Rightarrow> 'p \<Rightarrow> real) \<Rightarrow> real \<Rightarrow> real \<Rightarrow> int \<Rightarrow> 'p \<Rightarrow> real" where
  "root_find_bisect func xleft xright numit param =
     (let s = bisect_loop func param numit (bisect_init xleft xright)
      in 0.5 * (st_left s + st_right s))"

text \<open>
  The step as the specification words it, on a bracket alone: take the midpoint, move the
  left end to it when \<^verbatim>\<open>func\<close> has the same strict sign there as at the left end, and the
  right end otherwise.
\<close>

definition spec_bisect_step :: "(real \<Rightarrow> 'p \<Rightarrow> real) \<Rightarrow> 'p \<Rightarrow> real \<times> real \<Rightarrow> real \<times> real" where
  "spec_bisect_step func param b =
     (let xmid = (fst b + snd b) / 2
      in if func xmid param * func (fst b) param > 0 then (xmid, snd b) else (fst b, xmid))"

text \<open>The bracket held by a loop state, and its signed width \<open>xright - xleft\<close>.\<close>

definition bracket :: "bisect_state \<Rightarrow> real \<times> real" where
  "bracket s = (st_left s, st_right s)"

definition width :: "bisect_state \<Rightarrow> real" where
  "width s = st_right s - st_left s"

subsection \<open>root_find_bisect in floating point\<close>

text \<open>
  A float is a finite number, an infinity or NaN. The signed zeros are not told apart:
  they compare equal and no operation below depends on the sign of a zero.
\<close>

datatype pyfloat = Finite real | PosInf | NegInf | NaN

text \<open>The comparisons \<^verbatim>\<open><=\<close> and \<^verbatim>\<open><\<close>; both are false as soon as an operand is NaN.\<close>

fun fl_le :: "pyfloat \<Rightarrow> pyfloat \<Rightarrow> bool" where
  "fl_le NaN b = False"
| "fl_le a NaN = False"
| "fl_le NegInf b = True"
| "fl_le a PosInf = True"
| "fl_le PosInf b = False"
| "fl_le a NegInf = False"
| "fl_le (Finite x) (Finite y) = (x \<le> y)"

fun fl_less :: "pyfloat \<Rightarrow> pyfloat \<Rightarrow> bool" where
  "fl_less NaN b = False"
| "fl_less a NaN = False"
| "fl_less PosInf b = False"
| "fl_less a NegInf = False"
| "fl_less NegInf b = True"
| "fl_less a PosInf = True"
| "fl_less (Finite x) (Finite y) = (x < y)"

text \<open>
  Addition and multiplication. On two finite operands the exact result is handed to the
  rounding function \<open>rnd\<close>, which returns the float that stands for it (an infinity when
  the result is out of range). The other cases are those of IEEE 754: opposite infinities
  add up to NaN, and zero times an infinity is NaN.
\<close>

fun fl_add :: "(real \<Rightarrow> pyfloat) \<Rightarrow> pyfloat \<Rightarrow> pyfloat \<Rightarrow> pyfloat" where
  "fl_add rnd NaN b = NaN"
| "fl_add rnd a NaN = NaN"
| "fl_add rnd PosInf NegInf = NaN"
| "fl_add rnd NegInf PosInf = NaN"
| "fl_add rnd PosInf b = PosInf"
| "fl_add rnd a PosInf = PosInf"
| "fl_add rnd NegInf b = NegInf"
| "fl_add rnd a NegInf = NegInf"
| "fl_add rnd (Finite x) (Finite y) = rnd (x + y)"

definition fl_inf_times :: "pyfloat \<Rightarrow> real \<Rightarrow> pyfloat" where
  "fl_inf_times v x =
     (if x = 0 then NaN else if 0 < x then v else if v = PosInf then NegInf else PosInf)"

fun fl_mul :: "(real \<Rightarrow> pyfloat) \<Rightarrow> pyfloat \<Rightarrow> pyfloat \<Rightarrow> pyfloat" where
  "fl_mul rnd NaN b = NaN"
| "fl_mul rnd a NaN = NaN"
| "fl_mul rnd (Finite x) (Finite y) = rnd (x * y)"
| "fl_mul rnd (Finite x) PosInf = fl_inf_times PosInf x"
| "fl_mul rnd (Finite x) NegInf = fl_inf_times NegInf x"
| "fl_mul rnd PosInf (Finite y) = fl_inf_times PosInf y"
| "fl_mul rnd NegInf (Finite y) = fl_inf_times NegInf y"
| "fl_mul rnd PosInf PosInf = PosInf"
| "fl_mul rnd NegInf NegInf = PosInf"
| "fl_mul rnd PosInf NegInf = NegInf"
| "fl_mul rnd NegInf PosInf = NegInf"

text \<open>
  The same loop body, loop and function as above, with every \<^verbatim>\<open>+\<close>, \<^verbatim>\<open>*\<close> and \<^verbatim>\<open>>\<close> of the
  source read as the float operation.
\<close>

record fl_bisect_state =
  fl_left :: pyfloat
  fl_right :: pyfloat
  fl_calls :: "pyfloat list"

definition fl_bisect_body ::
  "(real \<Rightarrow> pyfloat) \<Rightarrow> (pyfloat \<Rightarrow> 'p \<Rightarrow> pyfloat) \<Rightarrow> 'p \<Rightarrow> int \<Rightarrow> fl_bisect_state \<Rightarrow> fl_bisect_state" where
  "fl_bisect_body rnd func param i s =
     (let xmid = fl_mul rnd (Finite 0.5) (fl_add rnd (fl_left s) (fl_right s));
          fmid = func xmid param;
          fleft = func (fl_left s) param;
          (xl, xr) = lax_cond (fl_less (Finite 0) (fl_mul rnd fmid fleft))
                       (\<lambda>x. (xmid, fl_right s)) (\<lambda>x. (fl_left s, xmid)) ()
      in \<lparr>fl_left = xl, fl_right = xr, fl_calls = fl_calls s @ [xmid, fl_left s]\<rparr>)"

definition fl_bisect_loop ::
  "(real \<Rightarrow> pyfloat) \<Rightarrow> (pyfloat \<Rightarrow> 'p \<Rightarrow> pyfloat) \<Rightarrow> 'p \<Rightarrow> int \<Rightarrow> fl_bisect_state \<Rightarrow> fl_bisect_state" where
  "fl_bisect_loop rnd func param numit s = fold (fl_bisect_body rnd func param) (range_py numit) s"

definition fl_bisect_init :: "pyfloat \<Rightarrow> pyfloat \<Rightarrow> fl_bisect_state" where
  "fl_bisect_init xleft xright = \<lparr>fl_left = xleft, fl_right = xright, fl_calls = []\<rparr>"

definition fl_root_find_bisect ::
  "(real \<Rightarrow> pyfloat) \<Rightarrow> (pyfloat \<Rightarrow> 'p \<Rightarrow> pyfloat) \<Rightarrow> pyfloat \<Rightarrow> pyfloat \<Rightarrow> int \<Rightarrow> 'p \<Rightarrow> pyfloat" where
  "fl_root_find_bisect rnd func xleft xright numit param =
     (let s = fl_bisect_loop rnd func param numit (fl_bisect_init xleft xright)
      in fl_mul rnd (Finite 0.5) (fl_add rnd (fl_left s) (fl_right s)))"

text \<open>
  What the properties below need of the rounding function: it is monotone, it returns a
  float unchanged (a number x is a float when \<open>rnd x = Finite x\<close>), and doubling a float of
  magnitude at most B is exact. Rounding to nearest in a binary format has all three, with
  B half the largest finite float.
\<close>

definition rounding_ok :: "(real \<Rightarrow> pyfloat) \<Rightarrow> real \<Rightarrow> bool" where
  "rounding_ok rnd B \<longleftrightarrow>
     (\<forall>x y. x \<le> y \<longrightarrow> fl_le (rnd x) (rnd y))
     \<and> (\<forall>x y. rnd x = Finite y \<longrightarrow> rnd y = Finite y)
     \<and> (\<forall>y. rnd y = Finite y \<and> \<bar>y\<bar> \<le> B \<longrightarrow> rnd (2 * y) = Finite (2 * y))"

text \<open>
  The range of binary64: the largest finite double \<open>(2 - 2\<^sup>-\<^sup>5\<^sup>2) * 2\<^sup>1\<^sup>0\<^sup>2\<^sup>3\<close>, and the least
  magnitude that rounds to an infinity. \<open>round_range\<close> is a rounding function with this
  range and no loss of precision inside it; it agrees with rounding to nearest on every
  double and on every number of magnitude above the largest double.
\<close>

definition dbl_max :: real where
  "dbl_max = 2 ^ 1024 - 2 ^ 971"

definition dbl_overflow :: real where
  "dbl_overflow = 2 ^ 1024 - 2 ^ 970"

definition round_range :: "real \<Rightarrow> pyfloat" where
  "round_range x =
     (if dbl_overflow \<le> x then PosInf
      else if x \<le> - dbl_overflow then NegInf
      else Finite (max (- dbl_max) (min dbl_max x)))"

text \<open>Both ends of the bracket of a loop state are floats between \<open>lo\<close> and \<open>hi\<close>.\<close>

definition fl_bracket_in :: "(real \<Rightarrow> pyfloat) \<Rightarrow> real \<Rightarrow> real \<Rightarrow> fl_bisect_state \<Rightarrow> bool" where
  "fl_bracket_in rnd lo hi s =
     (\<exists>l r. fl_left s = Finite l \<and> fl_right s = Finite r \<and> rnd l = Finite l \<and> rnd r = Finite r
        \<and> lo \<le> l \<and> l \<le> hi \<and> lo \<le> r \<and> r \<le> hi)"

subsection \<open>softclip\<close>

text \<open>\<^verbatim>\<open>jnp.clip(x, a_min, a_max)\<close> is \<^verbatim>\<open>minimum(maximum(x, a_min), a_max)\<close>.\<close>

definition jnp_clip :: "real \<Rightarrow> real \<Rightarrow> real \<Rightarrow> real" where
  "jnp_clip x a_min a_max = min (max x a_min) a_max"

text \<open>\<^verbatim>\<open>jnp.where(c, a, b)\<close> on scalars: both values are computed, one is selected.\<close>

definition jnp_where :: "bool \<Rightarrow> 'a \<Rightarrow> 'a \<Rightarrow> 'a" where
  "jnp_where c a b = (if c then a else b)"

definition softclip :: "real \<Rightarrow> real \<Rightarrow> real \<Rightarrow> real" where
  "softclip x a_min a_max =
     (let y = jnp_clip x a_min a_max
      in jnp_where (x < a_min)
           (a_min + ln (\<bar>x - a_min\<bar> + 1) * sgn (x - a_min))
           (jnp_where (x > a_max)
              (a_max + ln (\<bar>x - a_max\<bar> + 1) * sgn (x - a_max))
              y))"

subsection \<open>lngamma_complex_e\<close>

text \<open>
  \<^verbatim>\<open>jnp.log\<close> on a complex number is the principal logarithm: the logarithm of the modulus,
  and the argument in \<open>(-\<pi>, \<pi>]\<close>. At zero, where the floating point result is infinite, the
  value below is the library's default and carries no meaning.
\<close>

definition jnp_log :: "complex \<Rightarrow> complex" where
  "jnp_log z = Complex (ln (cmod z)) (Arg z)"

text \<open>\<^verbatim>\<open>jnp.arange(a, b)\<close>: the integers from a up to b - 1.\<close>

definition jnp_arange :: "int \<Rightarrow> int \<Rightarrow> int list" where
  "jnp_arange a b = [a..b - 1]"

definition lanczos_7_c :: "real list" where
  "lanczos_7_c =
     [0.99999999999980993227684700473478,
      676.520368121885098567009190444019,
      - 1259.13921672240287047156078755283,
      771.3234287776530788486528258894,
      - 176.61502916214059906584551354,
      12.507343278686904814458936853,
      - 0.13857109526572011689554707,
      0.000009984369578019570859563,
      0.000000150563273514931155834]"

definition LogRootTwoPi :: real where
  "LogRootTwoPi = 0.9189385332046727418"

text \<open>
  The inner function of \<^verbatim>\<open>lngamma_complex_e\<close>. The array expression
  \<^verbatim>\<open>lanczos_7_c[1:] / jnp.abs(z+jnp.arange(1,9))**2 * jnp.conj(z+jnp.arange(1,9))\<close>
  works elementwise on two arrays of eight entries; \<^verbatim>\<open>jnp.sum\<close> adds the eight products.
\<close>

definition lngamma_lanczos_complex :: "complex \<Rightarrow> complex" where
  "lngamma_lanczos_complex z0 =
     (let z = z0 - 1;
          zk = map (\<lambda>k. z + of_int k) (jnp_arange 1 9);
          terms = map2 (\<lambda>c w. of_real (c / (cmod w)\<^sup>2) * cnj w) (drop 1 lanczos_7_c) zk;
          Ag = of_real (lanczos_7_c ! 0) + sum_list terms
      in (z + 0.5) * jnp_log (z + 7.5) - (z + 7.5) + of_real LogRootTwoPi + jnp_log Ag)"

definition lnpi :: real where
  "lnpi = 1.14472988584940017414342735135"

definition lngamma_complex_e :: "complex \<Rightarrow> complex" where
  "lngamma_complex_e z =
     lax_cond (Re z \<le> 0.5)
       (\<lambda>zz. of_real lnpi - jnp_log (sin (of_real pi * zz)) - lngamma_lanczos_complex (1 - zz))
       (\<lambda>zz. lngamma_lanczos_complex zz)
       z"

subsection \<open>savgol_filter\<close>

text \<open>
  Python exceptions as values. \<^verbatim>\<open>ValueError\<close> carries the message of the \<^verbatim>\<open>raise\<close>
  statement; \<^verbatim>\<open>TypeError\<close> is what \<^verbatim>\<open>jnp.dot\<close> raises for operands whose shapes do not fit.
\<close>

datatype error = ValueError string | TypeError string

type_synonym matrix = "real list list"

text \<open>A two-dimensional array is the list of its rows; the arrays built here have a row.\<close>

definition ncols :: "matrix \<Rightarrow> nat" where
  "ncols m = (case m of [] \<Rightarrow> 0 | r # rs \<Rightarrow> length r)"

definition jnp_linspace :: "real \<Rightarrow> real \<Rightarrow> nat \<Rightarrow> real list" where
  "jnp_linspace start stop num =
     (if num = 1 then [start]
      else map (\<lambda>i. start + real i * ((stop - start) / real (num - 1))) [0..<num])"

text \<open>\<^verbatim>\<open>jnp.vander(x, N)\<close>: one row per entry of x, holding its powers N - 1 down to 0.\<close>

definition jnp_vander :: "real list \<Rightarrow> nat \<Rightarrow> matrix" where
  "jnp_vander x N = map (\<lambda>xi. map (\<lambda>j. xi ^ (N - 1 - j)) [0..<N]) x"

definition jnp_transpose :: "matrix \<Rightarrow> matrix" where
  "jnp_transpose m = map (\<lambda>j. map (\<lambda>row. row ! j) m) [0..<ncols m]"

definition shape_msg :: string where
  "shape_msg = ''dot: incompatible shapes''"

text \<open>
  \<^verbatim>\<open>jnp.dot\<close> contracts the last axis of its first operand with the first axis of its
  second, and raises when the two have different lengths. One definition per pair of ranks.
\<close>

definition dot_vv :: "real list \<Rightarrow> real list \<Rightarrow> error + real" where
  "dot_vv u v =
     (if length u = length v then Inr (sum_list (map2 (*) u v))
      else Inl (TypeError shape_msg))"

definition dot_mv :: "matrix \<Rightarrow> real list \<Rightarrow> error + real list" where
  "dot_mv m v =
     (if ncols m = length v then Inr (map (\<lambda>row. sum_list (map2 (*) row v)) m)
      else Inl (TypeError shape_msg))"

definition dot_mm :: "matrix \<Rightarrow> matrix \<Rightarrow> error + matrix" where
  "dot_mm a b =
     (if ncols a = length b
      then Inr (map (\<lambda>row. map (\<lambda>col. sum_list (map2 (*) row col)) (jnp_transpose b)) a)
      else Inl (TypeError shape_msg))"

definition jnp_zeros_like :: "real list \<Rightarrow> real list" where
  "jnp_zeros_like y = replicate (length y) 0"

text \<open>\<^verbatim>\<open>jax.ops.index_update(a, i, v)\<close>: a copy of a with entry i replaced.\<close>

definition index_update :: "real list \<Rightarrow> nat \<Rightarrow> real \<Rightarrow> real list" where
  "index_update a i v = a[i := v]"

text \<open>The slice \<^verbatim>\<open>y[lo:hi]\<close> for indices within the array.\<close>

definition slice_py :: "real list \<Rightarrow> nat \<Rightarrow> nat \<Rightarrow> real list" where
  "slice_py y lo hi = take (hi - lo) (drop lo y)"

text \<open>
  The loop \<^verbatim>\<open>for i in range(window_length//2, y.shape[0]-window_length//2)\<close>, over the list
  of its indices; h is \<^verbatim>\<open>window_length//2\<close>. An exception of \<^verbatim>\<open>jnp.dot\<close> ends it.
\<close>

fun savgol_loop :: "real list \<Rightarrow> real list \<Rightarrow> nat \<Rightarrow> nat list \<Rightarrow> real list \<Rightarrow> error + real list" where
  "savgol_loop c y h [] y_smoothed = Inr y_smoothed"
| "savgol_loop c y h (i # rest) y_smoothed =
     (case dot_vv c (slice_py y (i - h) (i + h + 1)) of
        Inl e \<Rightarrow> Inl e
      | Inr v \<Rightarrow> savgol_loop c y h rest (index_update y_smoothed i v))"

text \<open>
  The part of \<^verbatim>\<open>savgol_filter\<close> after the five checks. \<^verbatim>\<open>jnp.linalg.solve\<close> is a routine
  of the array library and is taken as the parameter \<open>linalg_solve\<close>.
\<close>

definition savgol_apply ::
  "(matrix \<Rightarrow> real list \<Rightarrow> real list) \<Rightarrow> real list \<Rightarrow> int \<Rightarrow> int \<Rightarrow> error + real list" where
  "savgol_apply linalg_solve y window_length polyorder =
     (let b = map (\<lambda>i. (- 1) ^ nat i) (range_py (polyorder + 1));
          A = jnp_vander (jnp_linspace (- 1) 1 (nat window_length)) (nat (polyorder + 1));
          AT = jnp_transpose A
      in case dot_mm AT A of
           Inl e \<Rightarrow> Inl e
         | Inr ATA \<Rightarrow>
             (case dot_mv AT b of
                Inl e \<Rightarrow> Inl e
              | Inr ATb \<Rightarrow>
                  (let c = linalg_solve ATA ATb;
                       y_smoothed = jnp_zeros_like y;
                       h = nat (window_length div 2)
                   in savgol_loop c y h [h..<length y - h] y_smoothed)))"

definition savgol_filter ::
  "(matrix \<Rightarrow> real list \<Rightarrow> real list) \<Rightarrow> real list \<Rightarrow> int \<Rightarrow> int \<Rightarrow> error + real list" where
  "savgol_filter linalg_solve y window_length polyorder =
     (if window_length mod 2 = 0 then
        Inl (ValueError ''window_length must be odd'')
      else if window_length < polyorder + 2 then
        Inl (ValueError ''window_length is too small for the polynomials order'')
      else if window_length > int (length y) then
        Inl (ValueError ''window_length is too large for input array'')
      else if polyorder > window_length then
        Inl (ValueError ''polyorder is too large for the window length'')
      else if polyorder < 1 then
        Inl (ValueError ''polyorder must be non-negative'')
      else savgol_apply linalg_solve y window_length polyorder)"

section \<open>Properties of the bisection loop\<close>

lemma range_py_Suc: "range_py (int (Suc n)) = range_py (int n) @ [int n]"
  unfolding range_py_def nat_int by simp

lemma bisect_loop_Suc:
  "bisect_loop func param (int (Suc n)) s =
     bisect_body func param (int n) (bisect_loop func param (int n) s)"
  unfolding bisect_loop_def range_py_Suc by simp

lemma bisect_loop_0: "bisect_loop func param 0 s = s"
  by (simp add: bisect_loop_def range_py_def)

lemma bisect_loop_nat: "bisect_loop func param numit s = bisect_loop func param (int (nat numit)) s"
  by (simp add: bisect_loop_def range_py_def)

lemma bracket_body: "bracket (bisect_body func param i s) = spec_bisect_step func param (bracket s)"
  by (simp add: bisect_body_def spec_bisect_step_def bracket_def lax_cond_def Let_def)

lemma calls_body: "st_calls (bisect_body func param i s) = st_calls s @ [0.5 * (st_left s + st_right s), st_left s]"
  by (simp add: bisect_body_def lax_cond_def Let_def split: prod.splits)

lemma width_body: "width (bisect_body func param i s) = width s / 2"
  by (simp add: bisect_body_def width_def lax_cond_def Let_def field_simps)

lemma width_loop_nat: "width (bisect_loop func param (int n) s) = width s / 2 ^ n"
proof (induction n)
  case 0
  show ?case by (simp add: bisect_loop_0)
next
  case (Suc n)
  have "width (bisect_loop func param (int (Suc n)) s) = width (bisect_loop func param (int n) s) / 2"
    by (simp only: bisect_loop_Suc width_body)
  also have "\<dots> = width s / 2 ^ Suc n"
    by (simp add: Suc.IH)
  finally show ?case .
qed

lemma bracket_loop_nat:
  "bracket (bisect_loop func param (int n) s) = (spec_bisect_step func param ^^ n) (bracket s)"
proof (induction n)
  case 0
  show ?case by (simp add: bisect_loop_0)
next
  case (Suc n)
  have "bracket (bisect_loop func param (int (Suc n)) s)
          = spec_bisect_step func param (bracket (bisect_loop func param (int n) s))"
    by (simp only: bisect_loop_Suc bracket_body)
  then show ?case by (simp add: Suc.IH)
qed

lemma calls_loop_nat:
  "length (st_calls (bisect_loop func param (int n) s)) = length (st_calls s) + 2 * n"
proof (induction n)
  case 0
  show ?case by (simp add: bisect_loop_0)
next
  case (Suc n)
  have "length (st_calls (bisect_loop func param (int (Suc n)) s))
          = length (st_calls (bisect_loop func param (int n) s)) + 2"
    by (simp only: bisect_loop_Suc calls_body) simp
  then show ?case by (simp add: Suc.IH)
qed

lemma take_range_py: "k \<le> length (range_py numit) \<Longrightarrow> take k (range_py numit) = range_py (int k)"
  by (simp add: range_py_def take_map)

text \<open>
  C1: \<^verbatim>\<open>root_find_bisect\<close> runs the step of the specification exactly \<open>numit\<close> times on the
  initial bracket and returns the midpoint of the bracket it reaches. The step count does
  not depend on \<^verbatim>\<open>func\<close>: there is no early exit, and \<^verbatim>\<open>func\<close> is called exactly twice in
  each of the \<open>numit\<close> iterations.
\<close>

theorem bisect_iterates_step:
  "root_find_bisect func xleft xright numit param =
     (let b = (spec_bisect_step func param ^^ nat numit) (xleft, xright) in (fst b + snd b) / 2)
   \<and> length (st_calls (bisect_loop func param numit (bisect_init xleft xright))) = 2 * nat numit"
proof
  let ?s = "bisect_loop func param numit (bisect_init xleft xright)"
  have "bracket ?s = (spec_bisect_step func param ^^ nat numit) (bracket (bisect_init xleft xright))"
    using bracket_loop_nat [of func param "nat numit" "bisect_init xleft xright"]
    unfolding bisect_loop_nat [symmetric] .
  then have b: "bracket ?s = (spec_bisect_step func param ^^ nat numit) (xleft, xright)"
    by (simp add: bracket_def bisect_init_def)
  have "st_left ?s = fst (bracket ?s)" and "st_right ?s = snd (bracket ?s)"
    by (simp_all add: bracket_def)
  then have "st_left ?s = fst ((spec_bisect_step func param ^^ nat numit) (xleft, xright))"
    and "st_right ?s = snd ((spec_bisect_step func param ^^ nat numit) (xleft, xright))"
    by (simp_all only: b)
  then show "root_find_bisect func xleft xright numit param =
     (let b = (spec_bisect_step func param ^^ nat numit) (xleft, xright) in (fst b + snd b) / 2)"
    by (simp add: root_find_bisect_def Let_def)
  have "length (st_calls ?s) = length (st_calls (bisect_init xleft xright)) + 2 * nat numit"
    using calls_loop_nat [of func param "nat numit" "bisect_init xleft xright"]
    unfolding bisect_loop_nat [symmetric] .
  then show "length (st_calls ?s) = 2 * nat numit"
    by (simp add: bisect_init_def)
qed

theorem bisect_iterates_step_witness:
  "root_find_bisect (\<lambda>x p. x * x - p) 0 2 2 2 = 5 / 4
   \<and> length (st_calls (bisect_loop (\<lambda>x p. x * x - p) (2::real) 2 (bisect_init 0 2))) = 4"
  using bisect_iterates_step [of "\<lambda>x p. x * x - p" 0 2 2 "2::real"]
  by (simp add: spec_bisect_step_def numeral_2_eq_2 Let_def)

text \<open>
  C4: in exact arithmetic the bracket after the loop is \<open>(xright0 - xleft0) / 2 ^ numit\<close> wide,
  whatever \<^verbatim>\<open>func\<close> and \<^verbatim>\<open>param\<close> are. The count is \<open>nat numit\<close>, which is \<open>numit\<close> for every
  iteration count: \<^verbatim>\<open>range\<close> of a negative number is empty.
\<close>

theorem bisect_width_halves:
  "width (bisect_loop func param numit (bisect_init xleft0 xright0)) = (xright0 - xleft0) / 2 ^ nat numit"
proof -
  have "width (bisect_loop func param numit (bisect_init xleft0 xright0))
          = width (bisect_init xleft0 xright0) / 2 ^ nat numit"
    using width_loop_nat [of func param "nat numit"] bisect_loop_nat [of func param numit] by simp
  then show ?thesis by (simp add: width_def bisect_init_def)
qed

theorem bisect_width_halves_witness:
  "width (bisect_loop (\<lambda>x p. x * x - p) (2::real) 3 (bisect_init 0 2)) = 1 / 4"
  using bisect_width_halves [of "\<lambda>x p. x * x - p" "2::real" 3 0 2]
  by simp

section \<open>The bisection bracket in floating point\<close>

lemma fl_le_Finite_between:
  assumes "fl_le (Finite a) X" and "fl_le X (Finite b)"
  shows "\<exists>s. X = Finite s \<and> a \<le> s \<and> s \<le> b"
  using assms by (cases X) simp_all

lemma rounding_okD:
  assumes "rounding_ok rnd B"
  shows "x \<le> y \<Longrightarrow> fl_le (rnd x) (rnd y)"
    and "rnd x = Finite y \<Longrightarrow> rnd y = Finite y"
    and "rnd y = Finite y \<Longrightarrow> \<bar>y\<bar> \<le> B \<Longrightarrow> rnd (2 * y) = Finite (2 * y)"
  using assms unfolding rounding_ok_def by blast+

lemma rnd_between:
  assumes ok: "rounding_ok rnd B"
    and a: "rnd a = Finite a" and b: "rnd b = Finite b" and "a \<le> x" and "x \<le> b"
  shows "\<exists>m. rnd x = Finite m \<and> a \<le> m \<and> m \<le> b \<and> rnd m = Finite m"
proof -
  have "fl_le (Finite a) (rnd x)" and "fl_le (rnd x) (Finite b)"
    using rounding_okD(1) [OF ok \<open>a \<le> x\<close>] rounding_okD(1) [OF ok \<open>x \<le> b\<close>] a b by simp_all
  then obtain m where m: "rnd x = Finite m" "a \<le> m" "m \<le> b"
    using fl_le_Finite_between by blast
  moreover from m(1) have "rnd m = Finite m" by (rule rounding_okD(2) [OF ok])
  ultimately show ?thesis by blast
qed

lemma fl_midpoint_ordered:
  assumes ok: "rounding_ok rnd B"
    and l: "rnd l = Finite l" "\<bar>l\<bar> \<le> B" and r: "rnd r = Finite r" "\<bar>r\<bar> \<le> B"
    and "l \<le> r"
  shows "\<exists>m. fl_mul rnd (Finite 0.5) (fl_add rnd (Finite l) (Finite r)) = Finite m
           \<and> l \<le> m \<and> m \<le> r \<and> rnd m = Finite m"
proof -
  have l2: "rnd (2 * l) = Finite (2 * l)" and r2: "rnd (2 * r) = Finite (2 * r)"
    using rounding_okD(3) [OF ok] l r by blast+
  from \<open>l \<le> r\<close> have "2 * l \<le> l + r" and "l + r \<le> 2 * r" by simp_all
  with rnd_between [OF ok l2 r2] obtain s where
    s: "rnd (l + r) = Finite s" "2 * l \<le> s" "s \<le> 2 * r"
    by blast
  then have "l \<le> 0.5 * s" and "0.5 * s \<le> r" by simp_all
  with rnd_between [OF ok l(1) r(1)] obtain m where
    "rnd (0.5 * s) = Finite m" "l \<le> m" "m \<le> r" "rnd m = Finite m"
    by blast
  with s(1) show ?thesis by simp
qed

lemma fl_midpoint_between:
  assumes ok: "rounding_ok rnd B"
    and l: "rnd l = Finite l" "\<bar>l\<bar> \<le> B" and r: "rnd r = Finite r" "\<bar>r\<bar> \<le> B"
  shows "\<exists>m. fl_mul rnd (Finite 0.5) (fl_add rnd (Finite l) (Finite r)) = Finite m
           \<and> min l r \<le> m \<and> m \<le> max l r \<and> rnd m = Finite m"
proof (cases "l \<le> r")
  case True
  with fl_midpoint_ordered [OF ok l r True] show ?thesis by (simp add: min_def max_def)
next
  case False
  then have "r \<le> l" by simp
  from fl_midpoint_ordered [OF ok r l this] show ?thesis
    using False by (simp add: min_def max_def add.commute)
qed


lemma fl_bisect_body_inv:
  assumes ok: "rounding_ok rnd B" and B: "\<bar>lo\<bar> \<le> B" "\<bar>hi\<bar> \<le> B"
    and inv: "fl_bracket_in rnd lo hi s"
  shows "fl_bracket_in rnd lo hi (fl_bisect_body rnd func param i s)
         \<and> (fl_le (fl_left s) (fl_right s) \<longrightarrow>
              fl_le (fl_left (fl_bisect_body rnd func param i s)) (fl_right (fl_bisect_body rnd func param i s)))
         \<and> (fl_le (fl_right s) (fl_left s) \<longrightarrow>
              fl_le (fl_right (fl_bisect_body rnd func param i s)) (fl_left (fl_bisect_body rnd func param i s)))"
proof -
  from inv obtain l r where s: "fl_left s = Finite l" "fl_right s = Finite r"
    and rep: "rnd l = Finite l" "rnd r = Finite r"
    and bd: "lo \<le> l" "l \<le> hi" "lo \<le> r" "r \<le> hi"
    unfolding fl_bracket_in_def by blast
  from bd B have "\<bar>l\<bar> \<le> B" and "\<bar>r\<bar> \<le> B" by linarith+
  from fl_midpoint_between [OF ok rep(1) this(1) rep(2) this(2)] obtain m where
    m: "fl_mul rnd (Finite 0.5) (fl_add rnd (Finite l) (Finite r)) = Finite m"
      "min l r \<le> m" "m \<le> max l r" "rnd m = Finite m"
    by blast
  from m(2,3) bd have mb: "lo \<le> m" "m \<le> hi" by linarith+
  from m(1) have m': "fl_mul rnd (Finite (1 / 2)) (rnd (l + r)) = Finite m" by simp
  show ?thesis
  proof (cases "fl_less (Finite 0) (fl_mul rnd (func (Finite m) param) (func (Finite l) param))")
    case True
    then have "fl_left (fl_bisect_body rnd func param i s) = Finite m"
      and "fl_right (fl_bisect_body rnd func param i s) = Finite r"
      by (simp_all add: fl_bisect_body_def Let_def lax_cond_def s m')
    with rep m mb bd s show ?thesis
      by (auto simp add: fl_bracket_in_def)
  next
    case False
    then have "fl_left (fl_bisect_body rnd func param i s) = Finite l"
      and "fl_right (fl_bisect_body rnd func param i s) = Finite m"
      by (simp_all add: fl_bisect_body_def Let_def lax_cond_def s m')
    with rep m mb bd s show ?thesis
      by (auto simp add: fl_bracket_in_def)
  qed
qed

lemma fl_bisect_loop_Suc:
  "fl_bisect_loop rnd func param (int (Suc n)) s =
     fl_bisect_body rnd func param (int n) (fl_bisect_loop rnd func param (int n) s)"
  unfolding fl_bisect_loop_def range_py_Suc by simp

lemma fl_bisect_loop_0: "fl_bisect_loop rnd func param 0 s = s"
  by (simp add: fl_bisect_loop_def range_py_def)

lemma fl_bisect_loop_nat:
  "fl_bisect_loop rnd func param numit s = fl_bisect_loop rnd func param (int (nat numit)) s"
  by (simp add: fl_bisect_loop_def range_py_def)

lemma fl_bisect_loop_inv:
  assumes ok: "rounding_ok rnd B" and B: "\<bar>lo\<bar> \<le> B" "\<bar>hi\<bar> \<le> B"
    and inv: "fl_bracket_in rnd lo hi s"
  shows "fl_bracket_in rnd lo hi (fl_bisect_loop rnd func param (int n) s)
         \<and> (fl_le (fl_left s) (fl_right s) \<longrightarrow>
              fl_le (fl_left (fl_bisect_loop rnd func param (int n) s))
                (fl_right (fl_bisect_loop rnd func param (int n) s)))
         \<and> (fl_le (fl_right s) (fl_left s) \<longrightarrow>
              fl_le (fl_right (fl_bisect_loop rnd func param (int n) s))
                (fl_left (fl_bisect_loop rnd func param (int n) s)))"
proof (induction n)
  case 0
  from inv show ?case by (simp add: fl_bisect_loop_0)
next
  case (Suc n)
  then have "fl_bracket_in rnd lo hi (fl_bisect_loop rnd func param (int n) s)" by simp
  from fl_bisect_body_inv [OF ok B this, of func param "int n"] Suc show ?case
    unfolding fl_bisect_loop_Suc by blast
qed

lemma fl_bracket_in_init:
  assumes "rnd xleft = Finite xleft" and "rnd xright = Finite xright"
  shows "fl_bracket_in rnd (min xleft xright) (max xleft xright)
           (fl_bisect_init (Finite xleft) (Finite xright))"
  using assms by (simp add: fl_bracket_in_def fl_bisect_init_def)

lemma dbl_max_pos: "0 < dbl_max"
  by (simp add: dbl_max_def)

lemma dbl_max_less_overflow: "dbl_max < dbl_overflow"
  by (simp add: dbl_max_def dbl_overflow_def)

lemma rounding_ok_round_range: "rounding_ok round_range (dbl_max / 2)"
  unfolding rounding_ok_def
proof (intro conjI allI impI)
  fix x y :: real
  assume "x \<le> y"
  then show "fl_le (round_range x) (round_range y)"
    using dbl_max_pos dbl_max_less_overflow by (auto simp add: round_range_def)
next
  fix x y :: real
  assume "round_range x = Finite y"
  then have "- dbl_max \<le> y \<and> y \<le> dbl_max"
    using dbl_max_pos by (auto simp add: round_range_def split: if_splits)
  then show "round_range y = Finite y"
    using dbl_max_less_overflow by (auto simp add: round_range_def)
next
  fix y :: real
  assume "round_range y = Finite y \<and> \<bar>y\<bar> \<le> dbl_max / 2"
  then have "- dbl_max \<le> 2 * y \<and> 2 * y \<le> dbl_max" by (simp add: abs_le_iff) linarith
  then show "round_range (2 * y) = Finite (2 * y)"
    using dbl_max_less_overflow by (auto simp add: round_range_def)
qed


lemma dbl_max_ge_4: "4 \<le> dbl_max"
  by (simp add: dbl_max_def)

lemma round_range_small: "\<bar>x\<bar> \<le> dbl_max \<Longrightarrow> round_range x = Finite x"
  using dbl_max_less_overflow by (auto simp add: round_range_def)

lemma round_range_overflow: "dbl_overflow \<le> x \<Longrightarrow> round_range x = PosInf"
  by (simp add: round_range_def)

lemma pow_1023_facts:
  "(2::real) ^ 1023 \<le> dbl_max" "3 * (2::real) ^ 1022 \<le> dbl_max"
  "dbl_overflow \<le> (2::real) ^ 1023 + 3 * 2 ^ 1022" "dbl_overflow \<le> 2 * (2::real) ^ 1023"
  by (simp_all add: dbl_max_def dbl_overflow_def)

text \<open>
  C5 as stated fails in floating point: for the doubles \<open>xleft = 2\<^sup>1\<^sup>0\<^sup>2\<^sup>3\<close> and
  \<open>xright = 1.5 * 2\<^sup>1\<^sup>0\<^sup>2\<^sup>3\<close>, with \<open>xleft \<le> xright\<close> and \<^verbatim>\<open>func(x, param) = x\<close>, the sum
  \<open>xleft + xright\<close> overflows, the midpoint is infinite, and after one iteration the bracket
  is \<open>(inf, xright)\<close>, so \<open>xleft \<le> xright\<close> no longer holds.
\<close>

theorem fl_bisect_order_counterexample:
  "round_range (2 ^ 1023) = Finite (2 ^ 1023)
   \<and> round_range (3 * 2 ^ 1022) = Finite (3 * 2 ^ 1022)
   \<and> fl_le (Finite (2 ^ 1023)) (Finite (3 * 2 ^ 1022))
   \<and> fl_left (fl_bisect_loop round_range (\<lambda>x p. x) () 1
        (fl_bisect_init (Finite (2 ^ 1023)) (Finite (3 * 2 ^ 1022)))) = PosInf
   \<and> fl_right (fl_bisect_loop round_range (\<lambda>x p. x) () 1
        (fl_bisect_init (Finite (2 ^ 1023)) (Finite (3 * 2 ^ 1022)))) = Finite (3 * 2 ^ 1022)
   \<and> \<not> fl_le (fl_left (fl_bisect_loop round_range (\<lambda>x p. x) () 1
              (fl_bisect_init (Finite (2 ^ 1023)) (Finite (3 * 2 ^ 1022)))))
            (fl_right (fl_bisect_loop round_range (\<lambda>x p. x) () 1
              (fl_bisect_init (Finite (2 ^ 1023)) (Finite (3 * 2 ^ 1022)))))"
proof -
  have rl: "round_range (2 ^ 1023) = Finite (2 ^ 1023)"
    and rr: "round_range (3 * 2 ^ 1022) = Finite (3 * 2 ^ 1022)"
    using pow_1023_facts(1,2) by (simp_all add: round_range_small)
  have ov: "round_range (2 ^ 1023 + 3 * 2 ^ 1022) = PosInf"
    by (rule round_range_overflow) (rule pow_1023_facts(3))
  have loop: "fl_bisect_loop round_range (\<lambda>x p. x) () 1 s
                = fl_bisect_body round_range (\<lambda>x p. x) () 0 s" for s
    by (simp add: fl_bisect_loop_def range_py_def)
  have body: "fl_bisect_body round_range (\<lambda>x p. x) () 0
                (fl_bisect_init (Finite (2 ^ 1023)) (Finite (3 * 2 ^ 1022)))
              = \<lparr>fl_left = PosInf, fl_right = Finite (3 * 2 ^ 1022),
                 fl_calls = [PosInf, Finite (2 ^ 1023)]\<rparr>"
    unfolding fl_bisect_body_def fl_bisect_init_def
    by (simp add: Let_def lax_cond_def ov fl_inf_times_def del: power_numeral)
  show ?thesis unfolding loop body using rl rr by simp
qed

text \<open>
  C5, amended: if the ends of the initial bracket are finite floats of magnitude at most B
  (half the largest finite float, so that \<open>xleft + xright\<close> cannot overflow) and
  \<open>xleft \<le> xright\<close>, then \<open>xleft \<le> xright\<close> holds after each of the first k iterations of the
  loop, for every k up to the iteration count, every \<^verbatim>\<open>func\<close> and every rounding function
  with the three properties of \<open>rounding_ok\<close>. Nothing in the loop checks or restores the
  order: a bracket that starts with \<open>xright \<le> xleft\<close> keeps \<open>xright \<le> xleft\<close>.
\<close>

theorem fl_bisect_order_invariant:
  assumes "rounding_ok rnd B"
    and "rnd xleft = Finite xleft" and "rnd xright = Finite xright"
    and "\<bar>xleft\<bar> \<le> B" and "\<bar>xright\<bar> \<le> B"
    and "k \<le> length (range_py numit)"
  shows "(xleft \<le> xright \<longrightarrow>
            fl_le (fl_left (fold (fl_bisect_body rnd func param) (take k (range_py numit))
                     (fl_bisect_init (Finite xleft) (Finite xright))))
                  (fl_right (fold (fl_bisect_body rnd func param) (take k (range_py numit))
                     (fl_bisect_init (Finite xleft) (Finite xright)))))
         \<and> (xright \<le> xleft \<longrightarrow>
            fl_le (fl_right (fold (fl_bisect_body rnd func param) (take k (range_py numit))
                     (fl_bisect_init (Finite xleft) (Finite xright))))
                  (fl_left (fold (fl_bisect_body rnd func param) (take k (range_py numit))
                     (fl_bisect_init (Finite xleft) (Finite xright)))))"
proof -
  let ?s0 = "fl_bisect_init (Finite xleft) (Finite xright)"
  have f: "fold (fl_bisect_body rnd func param) (take k (range_py numit)) ?s0
          = fl_bisect_loop rnd func param (int k) ?s0"
    using assms(6) by (simp add: take_range_py fl_bisect_loop_def)
  have B: "\<bar>min xleft xright\<bar> \<le> B" "\<bar>max xleft xright\<bar> \<le> B"
    using assms(4,5) by (simp_all add: min_def max_def)
  have l0: "fl_left ?s0 = Finite xleft" and r0: "fl_right ?s0 = Finite xright"
    by (simp_all add: fl_bisect_init_def)
  from fl_bisect_loop_inv [OF assms(1) B fl_bracket_in_init [OF assms(2,3)], of func param k]
  show ?thesis unfolding f l0 r0 by simp
qed

theorem fl_bisect_order_invariant_witness:
  "rounding_ok round_range (dbl_max / 2)
   \<and> round_range 0 = Finite 0 \<and> round_range 2 = Finite 2
   \<and> \<bar>0::real\<bar> \<le> dbl_max / 2 \<and> \<bar>2::real\<bar> \<le> dbl_max / 2
   \<and> (2::nat) \<le> length (range_py 3)
   \<and> fl_le (fl_left (fold (fl_bisect_body round_range (\<lambda>x p. x) ()) (take 2 (range_py 3))
                (fl_bisect_init (Finite 0) (Finite 2))))
            (fl_right (fold (fl_bisect_body round_range (\<lambda>x p. x) ()) (take 2 (range_py 3))
                (fl_bisect_init (Finite 0) (Finite 2))))"
proof -
  have r0: "round_range 0 = Finite 0" and r2: "round_range 2 = Finite 2"
    using dbl_max_ge_4 by (simp_all add: round_range_small)
  have b0: "\<bar>0::real\<bar> \<le> dbl_max / 2" and b2: "\<bar>2::real\<bar> \<le> dbl_max / 2"
    using dbl_max_ge_4 by simp_all
  have k: "(2::nat) \<le> length (range_py 3)" by (simp add: range_py_def)
  from fl_bisect_order_invariant [OF rounding_ok_round_range r0 r2 b0 b2 k, of "\<lambda>x p. x" "()"]
  show ?thesis using rounding_ok_round_range r0 r2 b0 b2 k by simp
qed

text \<open>
  C10 as stated fails in floating point: for \<open>xleft = xright = 2\<^sup>1\<^sup>0\<^sup>2\<^sup>3\<close> and \<open>numit = 0\<close> the
  sum \<open>xleft + xright\<close> overflows and the result is infinite, outside \<open>[xleft, xright]\<close>.
\<close>

theorem fl_bisect_result_counterexample:
  "round_range (2 ^ 1023) = Finite (2 ^ 1023)
   \<and> fl_le (Finite (2 ^ 1023)) (Finite (2 ^ 1023))
   \<and> fl_root_find_bisect round_range (\<lambda>x p. x) (Finite (2 ^ 1023)) (Finite (2 ^ 1023)) 0 () = PosInf
   \<and> \<not> fl_le (fl_root_find_bisect round_range (\<lambda>x p. x) (Finite (2 ^ 1023)) (Finite (2 ^ 1023)) 0 ())
            (Finite (2 ^ 1023))"
proof -
  have rl: "round_range (2 ^ 1023) = Finite (2 ^ 1023)"
    using pow_1023_facts(1) by (simp add: round_range_small)
  have ov: "round_range (2 * 2 ^ 1023) = PosInf"
    by (rule round_range_overflow) (rule pow_1023_facts(4))
  have res: "fl_root_find_bisect round_range (\<lambda>x p. x) (Finite (2 ^ 1023)) (Finite (2 ^ 1023)) 0 () = PosInf"
    unfolding fl_root_find_bisect_def fl_bisect_loop_0 fl_bisect_init_def
    by (simp add: Let_def ov fl_inf_times_def del: power_numeral)
  show ?thesis unfolding res using rl by simp
qed

text \<open>
  C10, amended: if the ends of the initial bracket are finite floats of magnitude at most B
  (half the largest finite float, so that \<open>xleft + xright\<close> cannot overflow) and
  \<open>xleft \<le> xright\<close>, then the result lies in \<open>[xleft, xright]\<close>, for every \<^verbatim>\<open>func\<close> (no sign
  change is assumed), every iteration count and every rounding function with the three
  properties of \<open>rounding_ok\<close>. With \<open>numit = 0\<close> the result is the midpoint
  \<open>0.5 * (xleft + xright)\<close> of the initial bracket and \<^verbatim>\<open>func\<close> is never called.
\<close>

theorem fl_bisect_result_in_bracket:
  assumes "rounding_ok rnd B"
    and "rnd xleft = Finite xleft" and "rnd xright = Finite xright"
    and "\<bar>xleft\<bar> \<le> B" and "\<bar>xright\<bar> \<le> B"
    and "xleft \<le> xright"
  shows "fl_le (Finite xleft) (fl_root_find_bisect rnd func (Finite xleft) (Finite xright) numit param)
         \<and> fl_le (fl_root_find_bisect rnd func (Finite xleft) (Finite xright) numit param) (Finite xright)
         \<and> fl_root_find_bisect rnd func (Finite xleft) (Finite xright) 0 param
             = fl_mul rnd (Finite 0.5) (fl_add rnd (Finite xleft) (Finite xright))
         \<and> fl_calls (fl_bisect_loop rnd func param 0 (fl_bisect_init (Finite xleft) (Finite xright))) = []"
proof -
  let ?s0 = "fl_bisect_init (Finite xleft) (Finite xright)"
  let ?s = "fl_bisect_loop rnd func param numit ?s0"
  have B: "\<bar>min xleft xright\<bar> \<le> B" "\<bar>max xleft xright\<bar> \<le> B"
    using assms(4,5) by (simp_all add: min_def max_def)
  have "fl_bracket_in rnd (min xleft xright) (max xleft xright) ?s"
    using fl_bisect_loop_inv [OF assms(1) B fl_bracket_in_init [OF assms(2,3)], of func param "nat numit"]
    unfolding fl_bisect_loop_nat [symmetric] by blast
  then obtain l r where s: "fl_left ?s = Finite l" "fl_right ?s = Finite r"
    and rep: "rnd l = Finite l" "rnd r = Finite r"
    and bd: "xleft \<le> l" "l \<le> xright" "xleft \<le> r" "r \<le> xright"
    using assms(6) unfolding fl_bracket_in_def by (auto simp add: min_def max_def)
  from bd assms(4,5) have "\<bar>l\<bar> \<le> B" and "\<bar>r\<bar> \<le> B" by linarith+
  from fl_midpoint_between [OF assms(1) rep(1) this(1) rep(2) this(2)] obtain m where
    m: "fl_mul rnd (Finite 0.5) (fl_add rnd (Finite l) (Finite r)) = Finite m"
      "min l r \<le> m" "m \<le> max l r"
    by blast
  from m(2,3) bd have "xleft \<le> m" and "m \<le> xright" by linarith+
  moreover from m(1) have "fl_mul rnd (Finite (1 / 2)) (rnd (l + r)) = Finite m" by simp
  then have "fl_root_find_bisect rnd func (Finite xleft) (Finite xright) numit param = Finite m"
    by (simp add: fl_root_find_bisect_def Let_def s)
  ultimately show ?thesis
    by (simp add: fl_root_find_bisect_def fl_bisect_loop_0 fl_bisect_init_def)
qed

theorem fl_bisect_result_in_bracket_witness:
  "rounding_ok round_range (dbl_max / 2)
   \<and> round_range 0 = Finite 0 \<and> round_range 2 = Finite 2
   \<and> \<bar>0::real\<bar> \<le> dbl_max / 2 \<and> \<bar>2::real\<bar> \<le> dbl_max / 2 \<and> (0::real) \<le> 2
   \<and> fl_le (Finite 0) (fl_root_find_bisect round_range (\<lambda>x p. Finite 1) (Finite 0) (Finite 2) 3 ())
   \<and> fl_le (fl_root_find_bisect round_range (\<lambda>x p. Finite 1) (Finite 0) (Finite 2) 3 ()) (Finite 2)
   \<and> fl_root_find_bisect round_range (\<lambda>x p. Finite 1) (Finite 0) (Finite 2) 0 () = Finite 1
   \<and> fl_calls (fl_bisect_loop round_range (\<lambda>x p. Finite 1) () 0 (fl_bisect_init (Finite 0) (Finite 2))) = []"
proof -
  have r0: "round_range 0 = Finite 0" and r2: "round_range 2 = Finite 2"
    and r1: "round_range 1 = Finite 1"
    using dbl_max_ge_4 by (simp_all add: round_range_small)
  have b0: "\<bar>0::real\<bar> \<le> dbl_max / 2" and b2: "\<bar>2::real\<bar> \<le> dbl_max / 2"
    using dbl_max_ge_4 by simp_all
  have le: "(0::real) \<le> 2" by simp
  from fl_bisect_result_in_bracket [OF rounding_ok_round_range r0 r2 b0 b2 le, of "\<lambda>x p. Finite 1" 3 "()"]
  show ?thesis using rounding_ok_round_range r0 r1 r2 b0 b2 by simp
qed

section \<open>Properties of softclip\<close>

lemma softclip_below: "x < a_min \<Longrightarrow> softclip x a_min a_max = a_min - ln (a_min - x + 1)"
  by (simp add: softclip_def jnp_where_def Let_def)

lemma softclip_above: "a_min \<le> x \<Longrightarrow> a_max < x \<Longrightarrow> softclip x a_min a_max = a_max + ln (x - a_max + 1)"
  by (simp add: softclip_def jnp_where_def Let_def)

lemma softclip_inside: "a_min \<le> x \<Longrightarrow> x \<le> a_max \<Longrightarrow> softclip x a_min a_max = x"
  by (simp add: softclip_def jnp_where_def jnp_clip_def Let_def)

lemma ln_one_plus_less: "0 < t \<Longrightarrow> ln (t + 1) < (t::real)"
  using ln_add_one_self_less_self [of t] by (simp add: add.commute)

lemma softclip_strict_mono:
  assumes "a_min \<le> a_max" and "x < y"
  shows "softclip x a_min a_max < softclip y a_min a_max"
proof -
  consider (bb) "y < a_min" | (bi) "x < a_min" "a_min \<le> y" "y \<le> a_max" | (ba) "x < a_min" "a_max < y"
    | (ii) "a_min \<le> x" "y \<le> a_max" | (ia) "a_min \<le> x" "x \<le> a_max" "a_max < y" | (aa) "a_max < x"
    using assms by linarith
  then show ?thesis
  proof cases
    case bb
    with assms have "ln (a_min - y + 1) < ln (a_min - x + 1)" by simp
    moreover from bb assms have "x < a_min" by simp
    ultimately show ?thesis
      unfolding softclip_below [OF bb] softclip_below [OF \<open>x < a_min\<close>] by linarith
  next
    case bi
    then have "0 < ln (a_min - x + 1)" by simp
    with bi show ?thesis
      unfolding softclip_below [OF bi(1)] softclip_inside [OF bi(2,3)] by linarith
  next
    case ba
    then have "0 < ln (a_min - x + 1)" and "0 < ln (y - a_max + 1)" by simp_all
    moreover from ba assms have "a_min \<le> y" by simp
    ultimately show ?thesis
      unfolding softclip_below [OF ba(1)] softclip_above [OF \<open>a_min \<le> y\<close> ba(2)]
      using assms by linarith
  next
    case ii
    from ii assms have "x \<le> a_max" and "a_min \<le> y" by simp_all
    then show ?thesis
      unfolding softclip_inside [OF ii(1) \<open>x \<le> a_max\<close>] softclip_inside [OF \<open>a_min \<le> y\<close> ii(2)]
      using assms by simp
  next
    case ia
    then have "0 < ln (y - a_max + 1)" by simp
    moreover from ia assms have "a_min \<le> y" by simp
    ultimately show ?thesis
      unfolding softclip_inside [OF ia(1,2)] softclip_above [OF \<open>a_min \<le> y\<close> ia(3)]
      using ia by linarith
  next
    case aa
    with assms have "ln (x - a_max + 1) < ln (y - a_max + 1)" by simp
    moreover from aa assms have "a_min \<le> x" and "a_min \<le> y" and "a_max < y" by simp_all
    ultimately show ?thesis
      unfolding softclip_above [OF \<open>a_min \<le> x\<close> aa] softclip_above [OF \<open>a_min \<le> y\<close> \<open>a_max < y\<close>]
      by linarith
  qed
qed

lemma softclip_at_top: "LIM x at_top. softclip x a_min a_max :> at_top"
  unfolding filterlim_at_top eventually_at_top_linorder
proof
  fix Z :: real
  let ?N = "max a_min (a_max + exp (Z - a_max))"
  have "Z \<le> softclip x a_min a_max" if "?N \<le> x" for x
  proof -
    have e: "0 < exp (Z - a_max)" by simp
    from that have lo: "a_min \<le> x" and "a_max + exp (Z - a_max) \<le> x" by simp_all
    with e have hi: "a_max < x" and "exp (Z - a_max) \<le> x - a_max + 1" by linarith+
    then have "ln (exp (Z - a_max)) \<le> ln (x - a_max + 1)"
      using e by (subst ln_le_cancel_iff) linarith+
    then have "Z - a_max \<le> ln (x - a_max + 1)" by simp
    then show ?thesis unfolding softclip_above [OF lo hi] by linarith
  qed
  then show "\<exists>N. \<forall>n\<ge>N. Z \<le> softclip n a_min a_max" by blast
qed

lemma softclip_at_bot: "LIM x at_bot. softclip x a_min a_max :> at_bot"
  unfolding filterlim_at_bot eventually_at_bot_linorder
proof
  fix Z :: real
  let ?N = "a_min - exp (a_min - Z)"
  have "softclip x a_min a_max \<le> Z" if "x \<le> ?N" for x
  proof -
    have e: "0 < exp (a_min - Z)" by simp
    with that have lo: "x < a_min" and "exp (a_min - Z) \<le> a_min - x + 1" by linarith+
    then have "ln (exp (a_min - Z)) \<le> ln (a_min - x + 1)"
      using e by (subst ln_le_cancel_iff) linarith+
    then have "a_min - Z \<le> ln (a_min - x + 1)" by simp
    then show ?thesis unfolding softclip_below [OF lo] by linarith
  qed
  then show "\<exists>N. \<forall>n\<le>N. softclip n a_min a_max \<le> Z" by blast
qed

lemma not_tendsto_at_bot:
  fixes f :: "real \<Rightarrow> real"
  assumes "LIM x at_bot. f x :> at_bot"
  shows "\<not> (f \<longlongrightarrow> c) at_bot"
proof
  assume "(f \<longlongrightarrow> c) at_bot"
  then have "eventually (\<lambda>x. dist (f x) c < 1) at_bot"
    by (rule tendstoD) simp
  moreover from assms have "eventually (\<lambda>x. f x \<le> c - 1) at_bot"
    unfolding filterlim_at_bot by blast
  ultimately have "eventually (\<lambda>x. dist (f x) c < 1 \<and> f x \<le> c - 1) at_bot"
    by (rule eventually_conj)
  then have "eventually (\<lambda>x::real. False) at_bot"
    by (rule eventually_mono) (auto simp add: dist_real_def)
  then show False by simp
qed

lemma not_tendsto_at_top:
  fixes f :: "real \<Rightarrow> real"
  assumes "LIM x at_top. f x :> at_top"
  shows "\<not> (f \<longlongrightarrow> c) at_top"
proof
  assume "(f \<longlongrightarrow> c) at_top"
  then have "eventually (\<lambda>x. dist (f x) c < 1) at_top"
    by (rule tendstoD) simp
  moreover from assms have "eventually (\<lambda>x. c + 1 \<le> f x) at_top"
    unfolding filterlim_at_top by blast
  ultimately have "eventually (\<lambda>x. dist (f x) c < 1 \<and> c + 1 \<le> f x) at_top"
    by (rule eventually_conj)
  then have "eventually (\<lambda>x::real. False) at_top"
    by (rule eventually_mono) (auto simp add: dist_real_def)
  then show False by simp
qed

text \<open>
  C9: for bounds with \<open>a_min \<le> a_max\<close>, \<^verbatim>\<open>softclip\<close> returns x itself whenever
  \<open>a_min \<le> x \<le> a_max\<close>, and it changes every other x: a value below \<open>a_min\<close> is raised and a
  value above \<open>a_max\<close> is lowered.
\<close>

theorem softclip_identity_inside:
  assumes "a_min \<le> a_max"
  shows "(a_min \<le> x \<and> x \<le> a_max \<longrightarrow> softclip x a_min a_max = x)
         \<and> (x < a_min \<longrightarrow> x < softclip x a_min a_max)
         \<and> (a_max < x \<longrightarrow> softclip x a_min a_max < x)"
proof (intro conjI impI)
  assume "a_min \<le> x \<and> x \<le> a_max"
  then show "softclip x a_min a_max = x" by (simp add: softclip_inside)
next
  assume lt: "x < a_min"
  then have "ln (a_min - x + 1) < a_min - x"
    by (intro ln_one_plus_less) simp
  with lt show "x < softclip x a_min a_max" by (simp add: softclip_below)
next
  assume gt: "a_max < x"
  then have "ln (x - a_max + 1) < x - a_max"
    by (intro ln_one_plus_less) simp
  moreover from gt assms have "a_min \<le> x" by simp
  ultimately show "softclip x a_min a_max < x" using gt by (simp add: softclip_above)
qed

theorem softclip_identity_inside_witness:
  "(0::real) \<le> 1 \<and> softclip (1/2) 0 1 = 1/2 \<and> softclip 0 0 1 = 0 \<and> softclip 1 0 1 = 1
   \<and> - 3 < softclip (- 3) 0 1 \<and> softclip 5 0 1 < 5"
  using softclip_identity_inside [of 0 1 "1/2"] softclip_identity_inside [of 0 1 0]
    softclip_identity_inside [of 0 1 1] softclip_identity_inside [of 0 1 "- 3"]
    softclip_identity_inside [of 0 1 5]
  by simp

text \<open>
  C6 as stated fails: with bounds 0 and 1 the values of \<^verbatim>\<open>softclip\<close> do not tend to 0 as x
  tends to minus infinity, nor to 1 as x tends to plus infinity. Already at \<open>x = -2\<close> the
  value is \<open>- ln 3\<close>, below the lower bound.
\<close>

theorem softclip_limits_counterexample:
  "softclip (- 2) 0 1 = - ln 3
   \<and> \<not> ((\<lambda>x. softclip x 0 1) \<longlongrightarrow> 0) at_bot
   \<and> \<not> ((\<lambda>x. softclip x 0 1) \<longlongrightarrow> 1) at_top"
  using not_tendsto_at_bot [OF softclip_at_bot [of 0 1], of 0]
    not_tendsto_at_top [OF softclip_at_top [of 0 1], of 1]
  by (simp add: softclip_below)

text \<open>
  C6, amended: in exact arithmetic, for \<open>a_min < a_max\<close> the function
  \<open>x \<mapsto> softclip x a_min a_max\<close> is non-decreasing, tends to minus infinity as x tends to
  minus infinity and to plus infinity as x tends to plus infinity, and is never flat
  outside \<open>[a_min, a_max]\<close>: it is strictly increasing on the points up to \<open>a_min\<close> and on
  the points from \<open>a_max\<close> on.
\<close>

theorem softclip_nondecreasing_unbounded:
  assumes "a_min < a_max"
  shows "mono (\<lambda>x. softclip x a_min a_max)
         \<and> (LIM x at_bot. softclip x a_min a_max :> at_bot)
         \<and> (LIM x at_top. softclip x a_min a_max :> at_top)
         \<and> (\<forall>x y. x < y \<and> (y \<le> a_min \<or> a_max \<le> x) \<longrightarrow>
               softclip x a_min a_max < softclip y a_min a_max)"
proof -
  from assms have le: "a_min \<le> a_max" by simp
  have "strict_mono (\<lambda>x. softclip x a_min a_max)"
    by (rule strict_monoI) (rule softclip_strict_mono [OF le])
  then have "mono (\<lambda>x. softclip x a_min a_max)"
    by (rule strict_mono_mono)
  moreover have "\<forall>x y. x < y \<and> (y \<le> a_min \<or> a_max \<le> x) \<longrightarrow>
      softclip x a_min a_max < softclip y a_min a_max"
    using softclip_strict_mono [OF le] by blast
  ultimately show ?thesis
    using softclip_at_bot [of a_min a_max] softclip_at_top [of a_min a_max] by blast
qed

theorem softclip_nondecreasing_unbounded_witness:
  "(0::real) < 1
   \<and> mono (\<lambda>x. softclip x 0 1)
   \<and> (LIM x at_bot. softclip x 0 1 :> at_bot)
   \<and> (LIM x at_top. softclip x 0 1 :> at_top)
   \<and> softclip (- 3) 0 1 < softclip (- 2) 0 1
   \<and> softclip 2 0 1 < softclip 3 0 1"
proof -
  have "softclip (- 3) 0 1 < softclip (- 2) 0 1" and "softclip 2 0 1 < softclip 3 0 1"
    using softclip_nondecreasing_unbounded [of 0 1] by force+
  then show ?thesis
    using softclip_nondecreasing_unbounded [of 0 1] by simp
qed

section \<open>Properties of the log-gamma evaluator\<close>

lemma upto_1_8: "[1..8] = [1, 2, 3, 4, 5, 6, 7, 8 :: int]"
  by code_simp

lemma upt_1_9: "[1..<9] = [1, 2, 3, 4, 5, 6, 7, 8 :: nat]"
  by code_simp

lemma jnp_arange_1_9: "jnp_arange 1 9 = [1, 2, 3, 4, 5, 6, 7, 8]"
  by (simp add: jnp_arange_def upto_1_8)

lemma length_lanczos_7_c: "length lanczos_7_c = 9"
  by (simp add: lanczos_7_c_def)

lemma drop_lanczos_7_c:
  "drop 1 lanczos_7_c = [lanczos_7_c ! 1, lanczos_7_c ! 2, lanczos_7_c ! 3, lanczos_7_c ! 4,
     lanczos_7_c ! 5, lanczos_7_c ! 6, lanczos_7_c ! 7, lanczos_7_c ! 8]"
  by (simp add: lanczos_7_c_def)

lemma sum_1_8:
  fixes f :: "nat \<Rightarrow> complex"
  shows "(\<Sum>k = 1..8. f k) = f 1 + f 2 + f 3 + f 4 + f 5 + f 6 + f 7 + f 8"
proof -
  have "{1..8::nat} = set [1..<9]" by auto
  then have "(\<Sum>k = 1..8. f k) = sum_list (map f [1..<9])"
    by (simp only: interv_sum_list_conv_sum_set_nat)
  then show ?thesis unfolding upt_1_9 by simp
qed

lemma lanczos_sum:
  "sum_list (map2 (\<lambda>c w. of_real (c / (cmod w)\<^sup>2) * cnj w) (drop 1 lanczos_7_c)
       (map (\<lambda>k. z + of_int k) (jnp_arange 1 9)))
   = (\<Sum>k = 1..8. of_real (lanczos_7_c ! k / (cmod (z + of_nat k))\<^sup>2) * cnj (z + of_nat k))"
  unfolding jnp_arange_1_9 drop_lanczos_7_c sum_1_8 by (simp add: ac_simps)

text \<open>
  C3: \<^verbatim>\<open>lngamma_lanczos_complex\<close> shifts its argument to \<open>z' = z - 1\<close>, forms
  \<open>Ag = g0 + (\<Sum>k = 1..8. c k / |z' + k|\<^sup>2 * cnj (z' + k))\<close> from the coefficient table and returns
  \<open>(z' + 0.5) * ln (z' + 7.5) - (z' + 7.5) + LogRootTwoPi + ln Ag\<close>, in complex arithmetic. The
  table is a constant of exactly nine entries whose entry 0 is
  \<open>g0 = 0.99999999999980993227684700473478\<close>, and \<open>LogRootTwoPi = 0.9189385332046727418\<close>.
\<close>

theorem lanczos_core_formula:
  "lngamma_lanczos_complex z =
     (let z' = z - 1;
          Ag = of_real 0.99999999999980993227684700473478
               + (\<Sum>k = 1..8. of_real (lanczos_7_c ! k / (cmod (z' + of_nat k))\<^sup>2) * cnj (z' + of_nat k))
      in (z' + 0.5) * jnp_log (z' + 7.5) - (z' + 7.5) + of_real 0.9189385332046727418 + jnp_log Ag)
   \<and> length lanczos_7_c = 9
   \<and> lanczos_7_c ! 0 = 0.99999999999980993227684700473478"
proof -
  have g0: "lanczos_7_c ! 0 = 0.99999999999980993227684700473478"
    by (simp add: lanczos_7_c_def)
  show ?thesis
    unfolding lngamma_lanczos_complex_def Let_def lanczos_sum g0 LogRootTwoPi_def
    using length_lanczos_7_c g0 by simp
qed

theorem lanczos_core_formula_witness:
  "lngamma_lanczos_complex 1 =
     (let z' = 1 - 1;
          Ag = of_real 0.99999999999980993227684700473478
               + (\<Sum>k = 1..8. of_real (lanczos_7_c ! k / (cmod (z' + of_nat k))\<^sup>2) * cnj (z' + of_nat k))
      in (z' + 0.5) * jnp_log (z' + 7.5) - (z' + 7.5) + of_real 0.9189385332046727418 + jnp_log Ag)
   \<and> length lanczos_7_c = 9
   \<and> lanczos_7_c ! 0 = 0.99999999999980993227684700473478"
  by (rule lanczos_core_formula [of 1])

text \<open>
  C2: \<^verbatim>\<open>lngamma_complex_e\<close> selects by the predicate \<open>Re z \<le> 0.5\<close>. When it holds the result is
  \<open>lnpi - ln (sin (\<pi> z)) - lngamma_lanczos_complex (1 - z)\<close> with the constant
  \<open>lnpi = 1.14472988584940017414342735135\<close>; when \<open>Re z > 0.5\<close> the result is
  \<open>lngamma_lanczos_complex z\<close>. The two cases are exhaustive and exclusive: the result is
  one branch or the other, never a mixture.
\<close>

theorem lngamma_branch:
  "(Re z \<le> 0.5 \<longrightarrow>
      lngamma_complex_e z =
        of_real 1.14472988584940017414342735135 - jnp_log (sin (of_real pi * z))
          - lngamma_lanczos_complex (1 - z))
   \<and> (Re z > 0.5 \<longrightarrow> lngamma_complex_e z = lngamma_lanczos_complex z)
   \<and> lnpi = 1.14472988584940017414342735135"
  by (simp add: lngamma_complex_e_def lax_cond_def lnpi_def)

theorem lngamma_branch_witness:
  "Re (1 / 2) \<le> 0.5
   \<and> lngamma_complex_e (1 / 2) =
        of_real 1.14472988584940017414342735135 - jnp_log (sin (of_real pi * (1 / 2)))
          - lngamma_lanczos_complex (1 - 1 / 2)
   \<and> Re 1 > 0.5
   \<and> lngamma_complex_e 1 = lngamma_lanczos_complex 1"
  using lngamma_branch [of "1 / 2"] lngamma_branch [of 1]
  by simp

section \<open>Properties of the Savitzky-Golay filter\<close>

lemma length_jnp_linspace: "length (jnp_linspace start stop num) = num"
  by (simp add: jnp_linspace_def)

lemma length_jnp_vander: "length (jnp_vander x N) = length x"
  by (simp add: jnp_vander_def)

lemma ncols_jnp_vander: "x \<noteq> [] \<Longrightarrow> ncols (jnp_vander x N) = N"
  by (cases x) (simp_all add: jnp_vander_def ncols_def)

lemma length_jnp_transpose: "length (jnp_transpose m) = ncols m"
  by (simp add: jnp_transpose_def)

lemma ncols_Cons: "ncols (r # rs) = length r"
  by (simp add: ncols_def)

lemma ncols_jnp_transpose: "0 < ncols m \<Longrightarrow> ncols (jnp_transpose m) = length m"
proof -
  assume "0 < ncols m"
  then have "[0..<ncols m] = 0 # [1..<ncols m]"
    by (simp add: upt_conv_Cons)
  then show ?thesis
    by (simp add: jnp_transpose_def ncols_Cons)
qed

lemma savgol_apply_shape_error:
  assumes "1 \<le> polyorder" and "polyorder + 2 \<le> window_length"
  shows "savgol_apply linalg_solve y window_length polyorder = Inl (TypeError shape_msg)"
proof -
  let ?x = "jnp_linspace (- 1) 1 (nat window_length)"
  let ?A = "jnp_vander ?x (nat (polyorder + 1))"
  let ?AT = "jnp_transpose ?A"
  let ?b = "map (\<lambda>i. (- 1) ^ nat i) (range_py (polyorder + 1)) :: real list"
  from assms have x: "?x \<noteq> []"
    using length_jnp_linspace [of "- 1" 1 "nat window_length"] by auto
  have rows: "length ?A = nat window_length"
    by (simp add: length_jnp_vander length_jnp_linspace)
  have cols: "ncols ?A = nat (polyorder + 1)"
    using x by (rule ncols_jnp_vander)
  with assms have "0 < ncols ?A" by simp
  then have colsT: "ncols ?AT = nat window_length"
    using rows by (simp add: ncols_jnp_transpose)
  have "length ?b = nat (polyorder + 1)"
    by (simp add: range_py_def)
  with colsT assms have "ncols ?AT \<noteq> length ?b" by simp
  then have mv: "dot_mv ?AT ?b = Inl (TypeError shape_msg)"
    by (simp add: dot_mv_def)
  have "ncols ?AT = length ?A" using colsT rows by simp
  then obtain ATA where mm: "dot_mm ?AT ?A = Inr ATA"
    by (simp add: dot_mm_def)
  show ?thesis
    unfolding savgol_apply_def Let_def mm mv by simp
qed

lemma savgol_filter_valid:
  assumes "window_length mod 2 \<noteq> 0" and "polyorder + 2 \<le> window_length"
    and "window_length \<le> int (length y)" and "1 \<le> polyorder"
  shows "savgol_filter linalg_solve y window_length polyorder =
           savgol_apply linalg_solve y window_length polyorder"
  using assms by (simp add: savgol_filter_def)

text \<open>
  C7 says that a violated precondition "\<open>polyorder\<close> larger than the window length" is
  signaled as a failure of its own. The code has a check and a message for it, but the
  check can never fire: every call with \<open>polyorder > window_length\<close> that has an odd window
  already fails the earlier check \<open>window_length < polyorder + 2\<close>. With
  \<open>window_length = 5\<close> and \<open>polyorder = 7\<close> on ten samples the failure raised is the one for a
  window too small for the polynomial order, and no input at all makes \<^verbatim>\<open>savgol_filter\<close>
  raise the failure for a \<open>polyorder\<close> too large for the window.
\<close>

theorem savgol_polyorder_check_unreachable:
  "savgol_filter linalg_solve [1, 2, 3, 4, 5, 6, 7, 8, 9, 10] 5 7
        = Inl (ValueError ''window_length is too small for the polynomials order'')
   \<and> savgol_filter linalg_solve y window_length polyorder
        \<noteq> Inl (ValueError ''polyorder is too large for the window length'')"
proof -
  have "savgol_filter linalg_solve y window_length polyorder
        \<noteq> Inl (ValueError ''polyorder is too large for the window length'')"
  proof (cases "window_length mod 2 \<noteq> 0 \<and> polyorder + 2 \<le> window_length
        \<and> window_length \<le> int (length y) \<and> 1 \<le> polyorder")
    case True
    then have "savgol_filter linalg_solve y window_length polyorder = Inl (TypeError shape_msg)"
      using savgol_filter_valid [of window_length polyorder y linalg_solve]
        savgol_apply_shape_error [of polyorder window_length linalg_solve y] by simp
    then show ?thesis by simp
  next
    case False
    then show ?thesis by (auto simp add: savgol_filter_def)
  qed
  then show ?thesis by (simp add: savgol_filter_def)
qed

theorem savgol_polyorder_check_unreachable_witness:
  "savgol_filter (\<lambda>A b. b) [1, 2, 3, 4, 5, 6, 7, 8, 9, 10] 5 7
        = Inl (ValueError ''window_length is too small for the polynomials order'')
   \<and> savgol_filter (\<lambda>A b. b) [1, 2, 3, 4, 5, 6, 7, 8, 9, 10] 5 7
        \<noteq> Inl (ValueError ''polyorder is too large for the window length'')"
  by (rule savgol_polyorder_check_unreachable [of "\<lambda>A b. b" "[1, 2, 3, 4, 5, 6, 7, 8, 9, 10]" 5 7])

text \<open>
  C8 says that a valid call returns an array as long as y with zero edges. The code does
  not get that far: for every input that passes the five checks, \<^verbatim>\<open>jnp.dot(AT, b)\<close> is
  applied to a matrix with \<open>window_length\<close> columns and a vector of \<open>polyorder + 1\<close>
  entries, which differ, so \<^verbatim>\<open>savgol_filter\<close> ends with the \<^verbatim>\<open>TypeError\<close> of \<^verbatim>\<open>jnp.dot\<close>.
\<close>

theorem savgol_valid_input_raises:
  assumes "window_length mod 2 \<noteq> 0" and "polyorder + 2 \<le> window_length"
    and "window_length \<le> int (length y)" and "1 \<le> polyorder"
  shows "savgol_filter linalg_solve y window_length polyorder = Inl (TypeError shape_msg)"
  using assms savgol_filter_valid [OF assms] savgol_apply_shape_error [of polyorder window_length]
  by simp

theorem savgol_valid_input_raises_witness:
  "(3::int) mod 2 \<noteq> 0 \<and> (1::int) + 2 \<le> 3 \<and> (3::int) \<le> int (length [1, 2, 3, 4, 5 :: real])
   \<and> (1::int) \<le> 1
   \<and> savgol_filter (\<lambda>A b. b) [1, 2, 3, 4, 5] 3 1 = Inl (TypeError shape_msg)"
  using savgol_valid_input_raises [of 3 1 "[1, 2, 3, 4, 5]" "\<lambda>A b. b"]
  by simp

end
